theory Spec2Isabelle
  imports Complex_Main
begin

section \<open>The node store of the brainstorming application (src/App.js)\<close>

text \<open>
  The React component \<open>App\<close> keeps three pieces of state: the list \<open>nodes\<close>, the
  selection \<open>selectedId\<close> and the flag \<open>queryingAI\<close>. Every handler of the component is
  embedded as a function from the state before the event to the state after it.

  Conventions of the embedding:
  \<^item> a node is the object literal \<open>{id, content, x, y}\<close> the handlers build: a record of two
    strings and two numbers. JavaScript numbers are idealised as real numbers, so that
    \<open>+\<close> and \<open>*\<close> are exact;
  \<^item> a JavaScript string is a \<open>string\<close>, each \<open>char\<close> standing for one code unit below 256;
  \<^item> what the handlers read from the environment is an argument of the function:
    the clock reading \<open>Date.now()\<close> (an integer number of milliseconds), each draw of
    \<open>Math.random()\<close>, the outcome of the promise \<open>expandWithAI\<close> returns, and the
    built-ins \<open>JSON.parse\<close> and \<open>JSON.stringify\<close>;
  \<^item> \<open>window.alert\<close> appends its message to the field \<open>alerts\<close> of the state, the
    oldest message first.

  The two effects that copy \<open>nodes\<close> to and from \<open>localStorage\<close> and the output on
  the console are left out: no handler reads them back.
\<close>

subsection \<open>Strings: \<open>String.prototype.trim\<close> and \<open>Number.prototype.toString\<close>\<close>

text \<open>
  \<open>trim\<close> removes white space and line terminators from both ends. Of these, the
  code units below 256 are TAB, LF, VT, FF, CR, SP and NBSP.
\<close>

definition is_white_space :: "char \<Rightarrow> bool" where
  "is_white_space c =
     (c = CHR 0x09 \<or> c = CHR 0x0A \<or> c = CHR 0x0B \<or> c = CHR 0x0C \<or> c = CHR 0x0D \<or>
      c = CHR 0x20 \<or> c = CHR 0xA0)"

definition trim :: "string \<Rightarrow> string" where
  "trim t = rev (dropWhile is_white_space (rev (dropWhile is_white_space t)))"

text \<open>
  The decimal digits of a natural number, most significant first. \<open>digit_char\<close> is
  only applied to numbers below ten.
\<close>

definition digit_char :: "nat \<Rightarrow> char" where
  "digit_char d = ''0123456789'' ! d"

fun nat_toString :: "nat \<Rightarrow> string" where
  "nat_toString n =
     (if n < 10 then [digit_char n] else nat_toString (n div 10) @ [digit_char (n mod 10)])"

text \<open>
  \<open>Date.now().toString()\<close>: the clock reading is an integer of magnitude far below
  \<open>10^21\<close>, which JavaScript prints in plain decimal notation, with a minus sign when it
  is negative.
\<close>

definition toString :: "int \<Rightarrow> string" where
  "toString i = (if i < 0 then CHR ''-'' # nat_toString (nat (- i)) else nat_toString (nat i))"

subsection \<open>The state\<close>

record node =
  node_id :: string
  node_content :: string
  node_x :: real
  node_y :: real

record state =
  nodes :: "node list"
  selectedId :: "string option"
  queryingAI :: bool
  alerts :: "string list"

text \<open>The state of a freshly mounted component: \<open>useState([])\<close>, \<open>useState(null)\<close>,
  \<open>useState(false)\<close>, and nothing alerted.\<close>

definition initial :: state where
  "initial = \<lparr>nodes = [], selectedId = None, queryingAI = False, alerts = []\<rparr>"

definition alert :: "string \<Rightarrow> state \<Rightarrow> state" where
  "alert msg s = s\<lparr>alerts := alerts s @ [msg]\<rparr>"

subsection \<open>\<open>addNode\<close>\<close>

text \<open>
  \<open>addNode text\<close> with the clock reading \<open>now\<close> and the two draws \<open>r1\<close>, \<open>r2\<close> of
  \<open>Math.random()\<close>. The guard \<open>!text || !text.trim()\<close> returns before anything is read
  or changed.
\<close>

definition addNode :: "string \<Rightarrow> int \<Rightarrow> real \<Rightarrow> real \<Rightarrow> state \<Rightarrow> state" where
  "addNode txt now r1 r2 s =
     (if txt = [] \<or> trim txt = [] then s
      else
        let n = \<lparr>node_id = toString now, node_content = trim txt,
                 node_x = 40 + r1 * 600, node_y = 40 + r2 * 300\<rparr>
        in s\<lparr>nodes := n # nodes s, selectedId := Some (node_id n)\<rparr>)"

subsection \<open>\<open>updateNode\<close>\<close>

text \<open>
  A patch is an object that may carry any of the fields of a node. The callers in
  \<open>App.js\<close> pass \<open>{x, y}\<close> (the \<open>onMove\<close> of the canvas); the spread
  \<open>{...n, ...patch}\<close> itself copies whatever field the patch has, the \<open>id\<close> included.
\<close>

record patch =
  patch_id :: "string option"
  patch_content :: "string option"
  patch_x :: "real option"
  patch_y :: "real option"

definition spread :: "node \<Rightarrow> patch \<Rightarrow> node" where
  "spread n p =
     \<lparr>node_id = (case patch_id p of None \<Rightarrow> node_id n | Some v \<Rightarrow> v),
      node_content = (case patch_content p of None \<Rightarrow> node_content n | Some v \<Rightarrow> v),
      node_x = (case patch_x p of None \<Rightarrow> node_x n | Some v \<Rightarrow> v),
      node_y = (case patch_y p of None \<Rightarrow> node_y n | Some v \<Rightarrow> v)\<rparr>"

definition updateNode :: "string \<Rightarrow> patch \<Rightarrow> state \<Rightarrow> state" where
  "updateNode i p s = s\<lparr>nodes := map (\<lambda>n. if node_id n = i then spread n p else n) (nodes s)\<rparr>"

subsection \<open>\<open>removeNode\<close>\<close>

definition removeNode :: "string \<Rightarrow> state \<Rightarrow> state" where
  "removeNode i s =
     s\<lparr>nodes := filter (\<lambda>n. node_id n \<noteq> i) (nodes s),
       selectedId := (if selectedId s = Some i then None else selectedId s)\<rparr>"

subsection \<open>\<open>onAskAI\<close>\<close>

text \<open>
  The promise of \<open>expandWithAI\<close> is either fulfilled with a result (\<open>None\<close> stands for
  \<open>null\<close> and \<open>undefined\<close>) or rejected with a thrown value \<open>e\<close>, of which the handler
  reads \<open>e.message\<close> and, when that is falsy, the text \<open>e\<close> itself concatenates to.
\<close>

datatype thrown = Thrown (message: "string option") (as_text: string)

datatype outcome = Fulfilled "string option" | Rejected thrown

text \<open>\<open>result || "(AI had no suggestion)"\<close>: the empty string is falsy too.\<close>

definition content_of_result :: "string option \<Rightarrow> string" where
  "content_of_result result =
     (case result of
        None \<Rightarrow> ''(AI had no suggestion)''
      | Some t \<Rightarrow> if t = [] then ''(AI had no suggestion)'' else t)"

text \<open>\<open>e.message || e\<close>.\<close>

definition message_or_self :: "thrown \<Rightarrow> string" where
  "message_or_self e =
     (case message e of
        None \<Rightarrow> as_text e
      | Some m \<Rightarrow> if m = [] then as_text e else m)"

text \<open>Up to the \<open>await\<close>: the handler has a node and raises the flag.\<close>

definition onAskAI_begin :: "state \<Rightarrow> state" where
  "onAskAI_begin s = s\<lparr>queryingAI := True\<rparr>"

text \<open>
  After the \<open>await\<close>: the rest of the \<open>try\<close> block or the \<open>catch\<close> block, then
  \<open>finally\<close>. \<open>now\<close> is the clock reading at that moment, \<open>s\<close> the state at that moment.
\<close>

definition onAskAI_settle :: "outcome \<Rightarrow> int \<Rightarrow> node \<Rightarrow> state \<Rightarrow> state" where
  "onAskAI_settle res now n s =
     (case res of
        Fulfilled result \<Rightarrow>
          let newNode = \<lparr>node_id = toString now, node_content = content_of_result result,
                         node_x = node_x n + 120, node_y = node_y n + 20\<rparr>
          in s\<lparr>nodes := newNode # nodes s, selectedId := Some (node_id newNode),
               queryingAI := False\<rparr>
      | Rejected e \<Rightarrow>
          (alert (''AI request failed: '' @ message_or_self e) s)\<lparr>queryingAI := False\<rparr>)"

text \<open>
  The handler run with nothing else happening during the \<open>await\<close>. \<open>node\<close> is \<open>None\<close>
  when the caller found no node (\<open>if (!node) return\<close>).
\<close>

definition onAskAI :: "(string \<Rightarrow> outcome) \<Rightarrow> int \<Rightarrow> node option \<Rightarrow> state \<Rightarrow> state" where
  "onAskAI expandWithAI now node s =
     (case node of
        None \<Rightarrow> s
      | Some n \<Rightarrow> onAskAI_settle (expandWithAI (node_content n)) now n (onAskAI_begin s))"

text \<open>The \<open>onAskAI\<close> property handed to the sidebar: it looks the node up by its id.\<close>

definition onAskAI_by_id :: "(string \<Rightarrow> outcome) \<Rightarrow> int \<Rightarrow> string \<Rightarrow> state \<Rightarrow> state" where
  "onAskAI_by_id expandWithAI now i s =
     onAskAI expandWithAI now (find (\<lambda>n. node_id n = i) (nodes s)) s"

subsection \<open>\<open>exportJSON\<close> and \<open>importJSON\<close>\<close>

text \<open>
  A parsed JSON document, as far as \<open>importJSON\<close> tells documents apart. The handler
  stores the elements of an array without looking at them; the embedding takes them to
  be node objects.
\<close>

datatype json =
  JNull | JBool bool | JNum real | JStr string | JObj "(string \<times> json) list" | JArr "node list"

definition Array_isArray :: "json \<Rightarrow> bool" where
  "Array_isArray v = (case v of JArr ns \<Rightarrow> True | _ \<Rightarrow> False)"

text \<open>
  \<open>JSON_stringify v\<close> stands for \<open>JSON.stringify(v, null, 2)\<close>. The result is the text of
  the blob offered for download; the state does not change.
\<close>

definition exportJSON :: "(json \<Rightarrow> string) \<Rightarrow> state \<Rightarrow> string" where
  "exportJSON JSON_stringify s = JSON_stringify (JArr (nodes s))"

text \<open>
  \<open>JSON_parse t\<close> is \<open>Inr v\<close> when \<open>JSON.parse(t)\<close> returns \<open>v\<close>, and \<open>Inl msg\<close> when it
  throws an error whose message is \<open>msg\<close>. \<open>file\<close> is \<open>None\<close> when no file was chosen,
  and otherwise the text the file reader hands to \<open>onload\<close>.
\<close>

definition importJSON :: "(string \<Rightarrow> string + json) \<Rightarrow> string option \<Rightarrow> state \<Rightarrow> state" where
  "importJSON JSON_parse file s =
     (case file of
        None \<Rightarrow> s
      | Some t \<Rightarrow>
          (case JSON_parse t of
             Inl msg \<Rightarrow> alert (''Failed to import: '' @ msg) s
           | Inr parsed \<Rightarrow>
               (case parsed of
                  JArr ns \<Rightarrow> s\<lparr>nodes := ns\<rparr>
                | _ \<Rightarrow> alert ''Invalid file format: expected an array of nodes'' s)))"

subsection \<open>Sequences of store operations\<close>

text \<open>
  The operations of the node store as a user drives them: an add carries its text and
  what the handler reads (the clock, two random draws); an update carries the id and a
  value for any of \<open>content\<close>, \<open>x\<close>, \<open>y\<close>.
\<close>

datatype op =
  Add string int real real
| Remove string
| Update string "string option" "real option" "real option"

fun step :: "op \<Rightarrow> state \<Rightarrow> state" where
  "step (Add txt now r1 r2) s = addNode txt now r1 r2 s"
| "step (Remove i) s = removeNode i s"
| "step (Update i c vx vy) s =
     updateNode i \<lparr>patch_id = None, patch_content = c, patch_x = vx, patch_y = vy\<rparr> s"

fun run :: "op list \<Rightarrow> state \<Rightarrow> state" where
  "run [] s = s"
| "run (a # as) s = run as (step a s)"

text \<open>The clock readings of the adds that create a node, in order.\<close>

fun stamps :: "op list \<Rightarrow> int list" where
  "stamps [] = []"
| "stamps (Add txt now r1 r2 # as) = (if trim txt = [] then stamps as else now # stamps as)"
| "stamps (a # as) = stamps as"

definition ids :: "state \<Rightarrow> string list" where
  "ids s = map node_id (nodes s)"

definition selection_ok :: "state \<Rightarrow> bool" where
  "selection_ok s = (case selectedId s of None \<Rightarrow> True | Some i \<Rightarrow> i \<in> set (ids s))"

section \<open>Properties\<close>

subsection \<open>Strings\<close>

lemma trim_Nil: "trim [] = []"
  by (simp add: trim_def)

text \<open>
  \<open>nat_toString\<close> is unfolded by hand: as a rewrite rule its equation applies to its
  own right-hand side.
\<close>

declare nat_toString.simps [simp del]

lemma digit_char_inj: "a < 10 \<Longrightarrow> b < 10 \<Longrightarrow> digit_char a = digit_char b \<Longrightarrow> a = b"
proof -
  assume a: "a < 10" and b: "b < 10" and e: "digit_char a = digit_char b"
  have d: "distinct ''0123456789''" by simp
  have l: "length ''0123456789'' = 10" by simp
  from e have "''0123456789'' ! a = ''0123456789'' ! b" by (simp only: digit_char_def)
  with d l a b show "a = b" by (simp only: nth_eq_iff_index_eq)
qed

lemma digit_char_not_minus: "d < 10 \<Longrightarrow> digit_char d \<noteq> CHR ''-''"
proof -
  assume d: "d < 10"
  have l: "length ''0123456789'' = 10" by simp
  from d l have "''0123456789'' ! d \<in> set ''0123456789''" by (simp only: nth_mem)
  moreover have "CHR ''-'' \<notin> set ''0123456789''" by simp
  ultimately show ?thesis by (auto simp only: digit_char_def)
qed

lemma nat_toString_not_Nil: "nat_toString n \<noteq> []"
  by (subst nat_toString.simps) simp

lemma nat_toString_length: "10 \<le> n \<Longrightarrow> 2 \<le> length (nat_toString n)"
proof -
  assume "10 \<le> n"
  then have "nat_toString n = nat_toString (n div 10) @ [digit_char (n mod 10)]"
    by (subst nat_toString.simps) simp
  moreover have "1 \<le> length (nat_toString (n div 10))"
    using nat_toString_not_Nil [of "n div 10"] by (cases "nat_toString (n div 10)") simp_all
  ultimately show ?thesis by simp
qed

lemma nat_toString_small: "n < 10 \<Longrightarrow> nat_toString n = [digit_char n]"
  by (subst nat_toString.simps) simp

lemma nat_toString_large:
  "\<not> n < 10 \<Longrightarrow> nat_toString n = nat_toString (n div 10) @ [digit_char (n mod 10)]"
  by (subst nat_toString.simps) simp

lemma nat_toString_inj: "nat_toString m = nat_toString n \<Longrightarrow> m = n"
proof (induction m arbitrary: n rule: nat_toString.induct)
  case (1 m)
  show ?case
  proof (cases "m < 10")
    case True
    note m = this
    show ?thesis
    proof (cases "n < 10")
      case True
      with m "1.prems" show ?thesis
        by (simp add: nat_toString_small digit_char_inj)
    next
      case False
      then have "2 \<le> length (nat_toString n)" by (simp add: nat_toString_length)
      moreover from m "1.prems" have "length (nat_toString n) = 1"
        by (metis nat_toString_small length_Cons list.size(3) One_nat_def)
      ultimately show ?thesis by simp
    qed
  next
    case False
    note m = this
    show ?thesis
    proof (cases "n < 10")
      case True
      from m have "2 \<le> length (nat_toString m)" by (simp add: nat_toString_length)
      moreover from True "1.prems" have "length (nat_toString m) = 1"
        by (metis nat_toString_small length_Cons list.size(3) One_nat_def)
      ultimately show ?thesis by simp
    next
      case False
      from m False "1.prems"
      have e: "nat_toString (m div 10) = nat_toString (n div 10)"
        and d: "digit_char (m mod 10) = digit_char (n mod 10)"
        by (simp_all add: nat_toString_large)
      from "1.IH" [OF m e] have "m div 10 = n div 10" .
      moreover from d have "m mod 10 = n mod 10" by (simp add: digit_char_inj)
      ultimately show ?thesis by (metis div_mult_mod_eq)
    qed
  qed
qed

lemma minus_notin_nat_toString: "CHR ''-'' \<notin> set (nat_toString n)"
proof (induction n rule: nat_toString.induct)
  case (1 n)
  show ?case
  proof (cases "n < 10")
    case True
    then show ?thesis
      using digit_char_not_minus [of n] by (auto simp add: nat_toString_small)
  next
    case False
    then show ?thesis
      using "1.IH" digit_char_not_minus [of "n mod 10"]
      by (auto simp add: nat_toString_large)
  qed
qed

text \<open>Two clock readings print the same id only when they are equal.\<close>

lemma toString_inj: "toString a = toString b \<Longrightarrow> a = b"
proof -
  assume e: "toString a = toString b"
  have hd: "\<And>n. hd (nat_toString n) \<noteq> CHR ''-''"
    using minus_notin_nat_toString nat_toString_not_Nil by (metis hd_in_set)
  show ?thesis
  proof (cases "a < 0")
    case True
    note a = this
    show ?thesis
    proof (cases "b < 0")
      case True
      with a e have "nat (- a) = nat (- b)" by (simp add: toString_def nat_toString_inj)
      with a True show ?thesis by simp
    next
      case False
      with a e have "CHR ''-'' # nat_toString (nat (- a)) = nat_toString (nat b)"
        by (simp add: toString_def)
      then have "hd (nat_toString (nat b)) = CHR ''-''" by (metis list.sel(1))
      with hd show ?thesis by simp
    qed
  next
    case False
    note a = this
    show ?thesis
    proof (cases "b < 0")
      case True
      with a e have "nat_toString (nat a) = CHR ''-'' # nat_toString (nat (- b))"
        by (simp add: toString_def)
      then have "hd (nat_toString (nat a)) = CHR ''-''" by (metis list.sel(1))
      with hd show ?thesis by simp
    next
      case False
      with a e have "nat a = nat b" by (simp add: toString_def nat_toString_inj)
      with a False show ?thesis by simp
    qed
  qed
qed

subsection \<open>\<open>addNode\<close>\<close>

text \<open>
  Claim C3. \<open>addNode\<close> leaves the whole state as it is when the trimmed text is empty.
  Otherwise, for draws of \<open>Math.random()\<close> in \<open>[0, 1)\<close>, it puts one new node in front of
  the collection: its content is the trimmed text, its position lies in
  \<open>[40, 640) \<times> [40, 340)\<close>, and it becomes the selection.
\<close>

theorem addNode_spec:
  "(trim txt = [] \<longrightarrow> addNode txt now r1 r2 s = s) \<and>
   (trim txt \<noteq> [] \<and> 0 \<le> r1 \<and> r1 < 1 \<and> 0 \<le> r2 \<and> r2 < 1 \<longrightarrow>
      (\<exists>n. nodes (addNode txt now r1 r2 s) = n # nodes s \<and>
           node_content n = trim txt \<and>
           40 \<le> node_x n \<and> node_x n < 640 \<and> 40 \<le> node_y n \<and> node_y n < 340 \<and>
           selectedId (addNode txt now r1 r2 s) = Some (node_id n) \<and>
           queryingAI (addNode txt now r1 r2 s) = queryingAI s \<and>
           alerts (addNode txt now r1 r2 s) = alerts s))"
proof (intro conjI impI)
  assume "trim txt = []"
  then show "addNode txt now r1 r2 s = s"
    by (simp add: addNode_def)
next
  assume a: "trim txt \<noteq> [] \<and> 0 \<le> r1 \<and> r1 < 1 \<and> 0 \<le> r2 \<and> r2 < 1"
  then have ne: "txt \<noteq> []"
    using trim_Nil by auto
  define n where "n = \<lparr>node_id = toString now, node_content = trim txt,
                 node_x = 40 + r1 * 600, node_y = 40 + r2 * 300\<rparr>"
  have st: "addNode txt now r1 r2 s = s\<lparr>nodes := n # nodes s, selectedId := Some (node_id n)\<rparr>"
    using a ne by (simp add: addNode_def n_def)
  have x: "40 \<le> node_x n \<and> node_x n < 640"
    using a by (simp add: n_def)
  have y: "40 \<le> node_y n \<and> node_y n < 340"
    using a by (simp add: n_def)
  have c: "node_content n = trim txt"
    by (simp add: n_def)
  show "\<exists>n. nodes (addNode txt now r1 r2 s) = n # nodes s \<and>
           node_content n = trim txt \<and>
           40 \<le> node_x n \<and> node_x n < 640 \<and> 40 \<le> node_y n \<and> node_y n < 340 \<and>
           selectedId (addNode txt now r1 r2 s) = Some (node_id n) \<and>
           queryingAI (addNode txt now r1 r2 s) = queryingAI s \<and>
           alerts (addNode txt now r1 r2 s) = alerts s"
    using st x y c by (intro exI [of _ n]) simp
qed

theorem addNode_spec_witness:
  "addNode ''   '' 1700000000000 (1/2) (1/4) initial = initial \<and>
   trim ''  Idea A '' \<noteq> [] \<and> (0::real) \<le> 1/2 \<and> (1/2::real) < 1 \<and> (0::real) \<le> 1/4 \<and> (1/4::real) < 1 \<and>
   (\<exists>n. nodes (addNode ''  Idea A '' 1700000000000 (1/2) (1/4) initial) = n # nodes initial \<and>
        node_content n = trim ''  Idea A '' \<and>
        40 \<le> node_x n \<and> node_x n < 640 \<and> 40 \<le> node_y n \<and> node_y n < 340 \<and>
        selectedId (addNode ''  Idea A '' 1700000000000 (1/2) (1/4) initial) = Some (node_id n) \<and>
        queryingAI (addNode ''  Idea A '' 1700000000000 (1/2) (1/4) initial) = queryingAI initial \<and>
        alerts (addNode ''  Idea A '' 1700000000000 (1/2) (1/4) initial) = alerts initial)"
proof -
  have blank: "trim ''   '' = []"
    by (simp add: trim_def is_white_space_def)
  have idea: "trim ''  Idea A '' \<noteq> []"
    by (simp add: trim_def is_white_space_def)
  show ?thesis
    using addNode_spec [of "''   ''" 1700000000000 "1/2" "1/4" initial]
      addNode_spec [of "''  Idea A ''" 1700000000000 "1/2" "1/4" initial] blank idea
    by simp
qed

subsection \<open>Identifiers and selection along a run\<close>

lemma addNode_blank: "trim txt = [] \<Longrightarrow> addNode txt now r1 r2 s = s"
  by (simp add: addNode_def)

lemma ids_addNode: "trim txt \<noteq> [] \<Longrightarrow> ids (addNode txt now r1 r2 s) = toString now # ids s"
  using trim_Nil by (auto simp add: addNode_def ids_def Let_def)

lemma selectedId_addNode:
  "trim txt \<noteq> [] \<Longrightarrow> selectedId (addNode txt now r1 r2 s) = Some (toString now)"
  using trim_Nil by (auto simp add: addNode_def Let_def)

lemma ids_removeNode: "ids (removeNode i s) = filter (\<lambda>j. j \<noteq> i) (ids s)"
  by (simp add: removeNode_def ids_def filter_map comp_def)

lemma node_id_spread: "patch_id p = None \<Longrightarrow> node_id (spread n p) = node_id n"
  by (simp add: spread_def)

lemma ids_updateNode: "patch_id p = None \<Longrightarrow> ids (updateNode i p s) = ids s"
  by (simp add: updateNode_def ids_def node_id_spread)

lemma selection_ok_addNode: "selection_ok s \<Longrightarrow> selection_ok (addNode txt now r1 r2 s)"
proof (cases "trim txt = []")
  case True
  assume "selection_ok s"
  with True show ?thesis by (simp add: addNode_blank)
next
  case False
  then show ?thesis
    by (simp add: selection_ok_def ids_addNode selectedId_addNode)
qed

lemma selection_ok_removeNode: "selection_ok s \<Longrightarrow> selection_ok (removeNode i s)"
  unfolding selection_ok_def ids_removeNode
  by (auto simp add: removeNode_def split: option.splits)

lemma selection_ok_updateNode:
  "patch_id p = None \<Longrightarrow> selection_ok s \<Longrightarrow> selection_ok (updateNode i p s)"
proof -
  assume p: "patch_id p = None" and ok: "selection_ok s"
  have "selectedId (updateNode i p s) = selectedId s" by (simp add: updateNode_def)
  with p ok show ?thesis by (simp add: selection_ok_def ids_updateNode split: option.splits)
qed

lemma selection_ok_step: "selection_ok s \<Longrightarrow> selection_ok (step a s)"
  by (cases a) (simp_all add: selection_ok_addNode selection_ok_removeNode selection_ok_updateNode)

lemma selection_ok_run: "selection_ok s \<Longrightarrow> selection_ok (run as s)"
  by (induction as arbitrary: s) (simp_all add: selection_ok_step)

lemma selection_ok_initial: "selection_ok initial"
  by (simp add: selection_ok_def initial_def)

lemma distinct_ids_run:
  "distinct (ids s) \<Longrightarrow> distinct (stamps as) \<Longrightarrow>
   toString ` set (stamps as) \<inter> set (ids s) = {} \<Longrightarrow> distinct (ids (run as s))"
proof (induction as arbitrary: s)
  case Nil
  then show ?case by simp
next
  case (Cons a as)
  show ?case
  proof (cases a)
    case (Add tx now r1 r2)
    show ?thesis
    proof (cases "trim tx = []")
      case True
      with Add Cons.prems have "distinct (ids (run as s))"
        by (intro Cons.IH) simp_all
      with Add True show ?thesis by (simp add: addNode_blank)
    next
      case False
      from Add False Cons.prems have fresh: "toString now \<notin> set (ids s)"
        and later: "now \<notin> set (stamps as)" and d: "distinct (stamps as)"
        and rest: "toString ` set (stamps as) \<inter> set (ids s) = {}"
        by auto
      from later have "toString now \<notin> toString ` set (stamps as)"
        using toString_inj by blast
      with rest have "toString ` set (stamps as) \<inter> set (toString now # ids s) = {}"
        by auto
      moreover from fresh Cons.prems have "distinct (toString now # ids s)" by simp
      ultimately have "distinct (ids (run as (addNode tx now r1 r2 s)))"
        using d False by (intro Cons.IH) (simp_all add: ids_addNode)
      with Add show ?thesis by simp
    qed
  next
    case (Remove i)
    with Cons.prems have "distinct (ids (run as (removeNode i s)))"
      by (intro Cons.IH) (auto simp add: ids_removeNode)
    with Remove show ?thesis by simp
  next
    case (Update i c vx vy)
    with Cons.prems have "distinct (ids (run as (step a s)))"
      by (intro Cons.IH) (simp_all add: ids_updateNode)
    then show ?thesis by simp
  qed
qed

lemma stamps_append: "stamps (xs @ ys) = stamps xs @ stamps ys"
proof (induction xs)
  case Nil
  show ?case by simp
next
  case (Cons a xs)
  then show ?case by (cases a) simp_all
qed

lemma distinct_stamps_take: "distinct (stamps ops) \<Longrightarrow> distinct (stamps (take k ops))"
proof -
  assume d: "distinct (stamps ops)"
  have "stamps ops = stamps (take k ops) @ stamps (drop k ops)"
    by (simp only: stamps_append [symmetric] append_take_drop_id)
  with d show ?thesis by simp
qed

text \<open>
  Claim C1, as the code has it. Run any sequence of adds, removes and updates from the
  freshly mounted component and stop after any number \<open>k\<close> of its operations. The
  selection is then \<open>null\<close> or the id of a node of the collection. The ids of the
  collection are pairwise distinct when the clock readings of the adds that create a
  node are pairwise distinct: an id is the clock reading in decimal, so two adds within
  one millisecond produce the same id.
\<close>

theorem store_invariant:
  "selection_ok (run (take k ops) initial) \<and>
   (distinct (stamps ops) \<longrightarrow> distinct (ids (run (take k ops) initial)))"
proof (intro conjI impI)
  show "selection_ok (run (take k ops) initial)"
    by (simp add: selection_ok_run selection_ok_initial)
next
  assume "distinct (stamps ops)"
  then have "distinct (stamps (take k ops))" by (rule distinct_stamps_take)
  moreover have "ids initial = []" by (simp add: ids_def initial_def)
  ultimately show "distinct (ids (run (take k ops) initial))"
    by (intro distinct_ids_run) simp_all
qed

theorem store_invariant_witness:
  "distinct (stamps
     [Add ''Idea A'' 1700000000000 (1/2) (1/2), Add ''   '' 1700000000000 0 0,
      Add ''Idea B'' 1700000000001 (1/4) (3/4),
      Update ''1700000000000'' (Some []) None (Some 7),
      Remove ''1700000000001'']) \<and>
   selection_ok (run (take 4
     [Add ''Idea A'' 1700000000000 (1/2) (1/2), Add ''   '' 1700000000000 0 0,
      Add ''Idea B'' 1700000000001 (1/4) (3/4),
      Update ''1700000000000'' (Some []) None (Some 7),
      Remove ''1700000000001'']) initial) \<and>
   distinct (ids (run (take 4
     [Add ''Idea A'' 1700000000000 (1/2) (1/2), Add ''   '' 1700000000000 0 0,
      Add ''Idea B'' 1700000000001 (1/4) (3/4),
      Update ''1700000000000'' (Some []) None (Some 7),
      Remove ''1700000000001'']) initial))"
proof -
  have "distinct (stamps
     [Add ''Idea A'' 1700000000000 (1/2) (1/2), Add ''   '' 1700000000000 0 0,
      Add ''Idea B'' 1700000000001 (1/4) (3/4),
      Update ''1700000000000'' (Some []) None (Some 7),
      Remove ''1700000000001''])"
    by (simp add: trim_def is_white_space_def)
  then show ?thesis
    using store_invariant [of 4 "[Add ''Idea A'' 1700000000000 (1/2) (1/2), Add ''   '' 1700000000000 0 0,
      Add ''Idea B'' 1700000000001 (1/4) (3/4),
      Update ''1700000000000'' (Some []) None (Some 7),
      Remove ''1700000000001'']"]
    by blast
qed

text \<open>
  Claim C1 as stated does not hold: two adds that read the same clock value leave two
  nodes with one id.
\<close>

theorem ids_collide:
  "\<not> distinct (ids (run [Add ''Idea A'' 1700000000000 (1/2) (1/2),
                           Add ''Idea B'' 1700000000000 (1/4) (3/4)] initial))"
  by (simp add: ids_def addNode_def initial_def trim_def is_white_space_def)

subsection \<open>\<open>removeNode\<close>\<close>

lemma nodes_removeNode: "nodes (removeNode i s) = filter (\<lambda>n. node_id n \<noteq> i) (nodes s)"
  by (simp add: removeNode_def)

text \<open>
  Claim C4. \<open>removeNode i\<close> keeps exactly the nodes whose id is not \<open>i\<close>, in their
  order. The selection becomes \<open>null\<close> when it was \<open>i\<close> and stays as it was
  otherwise. When no node has the id \<open>i\<close> the collection is the same as before.
\<close>

theorem removeNode_spec:
  "(\<forall>n. n \<in> set (nodes (removeNode i s)) \<longleftrightarrow> n \<in> set (nodes s) \<and> node_id n \<noteq> i) \<and>
   nodes (removeNode i s) = filter (\<lambda>n. node_id n \<noteq> i) (nodes s) \<and>
   (selectedId s = Some i \<longrightarrow> selectedId (removeNode i s) = None) \<and>
   (selectedId s \<noteq> Some i \<longrightarrow> selectedId (removeNode i s) = selectedId s) \<and>
   (i \<notin> set (ids s) \<longrightarrow> nodes (removeNode i s) = nodes s) \<and>
   queryingAI (removeNode i s) = queryingAI s \<and>
   alerts (removeNode i s) = alerts s"
proof -
  have "i \<notin> set (ids s) \<Longrightarrow> filter (\<lambda>n. node_id n \<noteq> i) (nodes s) = nodes s"
    by (rule filter_True) (auto simp add: ids_def)
  then show ?thesis
    by (auto simp add: removeNode_def)
qed

theorem removeNode_spec_witness:
  "selectedId \<lparr>nodes = [\<lparr>node_id = ''2'', node_content = ''B'', node_x = 3, node_y = 4\<rparr>,
                        \<lparr>node_id = ''1'', node_content = ''A'', node_x = 1, node_y = 2\<rparr>],
                selectedId = Some ''1'', queryingAI = False, alerts = []\<rparr> = Some ''1'' \<and>
   removeNode ''1'' \<lparr>nodes = [\<lparr>node_id = ''2'', node_content = ''B'', node_x = 3, node_y = 4\<rparr>,
                        \<lparr>node_id = ''1'', node_content = ''A'', node_x = 1, node_y = 2\<rparr>],
                selectedId = Some ''1'', queryingAI = False, alerts = []\<rparr>
     = \<lparr>nodes = [\<lparr>node_id = ''2'', node_content = ''B'', node_x = 3, node_y = 4\<rparr>],
        selectedId = None, queryingAI = False, alerts = []\<rparr> \<and>
   removeNode ''3'' \<lparr>nodes = [\<lparr>node_id = ''2'', node_content = ''B'', node_x = 3, node_y = 4\<rparr>,
                        \<lparr>node_id = ''1'', node_content = ''A'', node_x = 1, node_y = 2\<rparr>],
                selectedId = Some ''1'', queryingAI = False, alerts = []\<rparr>
     = \<lparr>nodes = [\<lparr>node_id = ''2'', node_content = ''B'', node_x = 3, node_y = 4\<rparr>,
                 \<lparr>node_id = ''1'', node_content = ''A'', node_x = 1, node_y = 2\<rparr>],
        selectedId = Some ''1'', queryingAI = False, alerts = []\<rparr>"
  using removeNode_spec [of "''1''" "\<lparr>nodes = [\<lparr>node_id = ''2'', node_content = ''B'', node_x = 3, node_y = 4\<rparr>,
                        \<lparr>node_id = ''1'', node_content = ''A'', node_x = 1, node_y = 2\<rparr>],
                selectedId = Some ''1'', queryingAI = False, alerts = []\<rparr>"]
    removeNode_spec [of "''3''" "\<lparr>nodes = [\<lparr>node_id = ''2'', node_content = ''B'', node_x = 3, node_y = 4\<rparr>,
                        \<lparr>node_id = ''1'', node_content = ''A'', node_x = 1, node_y = 2\<rparr>],
                selectedId = Some ''1'', queryingAI = False, alerts = []\<rparr>"]
  by (simp add: ids_def)

text \<open>
  Claim C10. When \<open>k\<close> nodes of the collection carry the id \<open>i\<close>, \<open>removeNode i\<close>
  deletes all \<open>k\<close> of them: no node with that id is left, the collection is shorter
  by \<open>k\<close>, and every node with another id is still there.
\<close>

theorem removeNode_duplicates:
  "count_list (ids s) i = k \<Longrightarrow>
     i \<notin> set (ids (removeNode i s)) \<and>
     length (nodes (removeNode i s)) + k = length (nodes s) \<and>
     (\<forall>n \<in> set (nodes s). node_id n \<noteq> i \<longrightarrow> n \<in> set (nodes (removeNode i s)))"
proof -
  assume k: "count_list (ids s) i = k"
  have "length (filter (\<lambda>j. j \<noteq> i) xs) + count_list xs i = length xs" for xs :: "string list"
    by (induction xs) simp_all
  from this [of "ids s"] have "length (ids (removeNode i s)) + count_list (ids s) i = length (ids s)"
    by (simp only: ids_removeNode)
  with k have "length (nodes (removeNode i s)) + k = length (nodes s)"
    by (simp add: ids_def)
  moreover have "i \<notin> set (ids (removeNode i s))"
    by (simp add: ids_removeNode)
  moreover have "\<forall>n \<in> set (nodes s). node_id n \<noteq> i \<longrightarrow> n \<in> set (nodes (removeNode i s))"
    by (simp add: nodes_removeNode)
  ultimately show ?thesis by blast
qed

theorem removeNode_duplicates_witness:
  "count_list (ids \<lparr>nodes = [\<lparr>node_id = ''7'', node_content = ''C'', node_x = 5, node_y = 6\<rparr>,
                             \<lparr>node_id = ''2'', node_content = ''B'', node_x = 3, node_y = 4\<rparr>,
                             \<lparr>node_id = ''7'', node_content = ''A'', node_x = 1, node_y = 2\<rparr>],
                     selectedId = None, queryingAI = False, alerts = []\<rparr>) ''7'' = 2 \<and>
   nodes (removeNode ''7'' \<lparr>nodes = [\<lparr>node_id = ''7'', node_content = ''C'', node_x = 5, node_y = 6\<rparr>,
                             \<lparr>node_id = ''2'', node_content = ''B'', node_x = 3, node_y = 4\<rparr>,
                             \<lparr>node_id = ''7'', node_content = ''A'', node_x = 1, node_y = 2\<rparr>],
                     selectedId = None, queryingAI = False, alerts = []\<rparr>)
     = [\<lparr>node_id = ''2'', node_content = ''B'', node_x = 3, node_y = 4\<rparr>]"
proof -
  let ?s = "\<lparr>nodes = [\<lparr>node_id = ''7'', node_content = ''C'', node_x = 5, node_y = 6\<rparr>,
                             \<lparr>node_id = ''2'', node_content = ''B'', node_x = 3, node_y = 4\<rparr>,
                             \<lparr>node_id = ''7'', node_content = ''A'', node_x = 1, node_y = 2\<rparr>],
                     selectedId = None, queryingAI = False, alerts = []\<rparr>"
  have c: "count_list (ids ?s) ''7'' = 2"
    by (simp add: ids_def)
  from removeNode_duplicates [OF c]
  have l: "length (nodes (removeNode ''7'' ?s)) + 2 = length (nodes ?s)"
    and m: "\<forall>n \<in> set (nodes ?s). node_id n \<noteq> ''7'' \<longrightarrow> n \<in> set (nodes (removeNode ''7'' ?s))"
    by blast+
  from l have "length (nodes (removeNode ''7'' ?s)) = 1" by simp
  then obtain a where a: "nodes (removeNode ''7'' ?s) = [a]"
    by (cases "nodes (removeNode ''7'' ?s)") simp_all
  from m have "\<lparr>node_id = ''2'', node_content = ''B'', node_x = 3, node_y = 4\<rparr>
      \<in> set (nodes (removeNode ''7'' ?s))"
    by simp
  with a have "a = \<lparr>node_id = ''2'', node_content = ''B'', node_x = 3, node_y = 4\<rparr>" by simp
  with a c show ?thesis by simp
qed

subsection \<open>\<open>updateNode\<close>\<close>

text \<open>
  Claim C5. For a patch with any of the fields \<open>content\<close>, \<open>x\<close>, \<open>y\<close> and no
  \<open>id\<close>, \<open>updateNode i\<close> keeps the length and the order of the collection and the id of
  every node. A node whose id is \<open>i\<close> takes the fields the patch has and keeps the
  others; the content of the patch is taken as it is, the empty string included. A
  node with another id is unchanged, so the collection is unchanged when no node has
  the id \<open>i\<close>. Selection, flag and alerts stay as they were.
\<close>

theorem updateNode_spec:
  "patch_id p = None \<Longrightarrow>
     length (nodes (updateNode i p s)) = length (nodes s) \<and>
     (\<forall>k < length (nodes s).
        node_id (nodes (updateNode i p s) ! k) = node_id (nodes s ! k) \<and>
        (node_id (nodes s ! k) = i \<longrightarrow>
           node_content (nodes (updateNode i p s) ! k) =
             (case patch_content p of None \<Rightarrow> node_content (nodes s ! k) | Some c \<Rightarrow> c) \<and>
           node_x (nodes (updateNode i p s) ! k) =
             (case patch_x p of None \<Rightarrow> node_x (nodes s ! k) | Some v \<Rightarrow> v) \<and>
           node_y (nodes (updateNode i p s) ! k) =
             (case patch_y p of None \<Rightarrow> node_y (nodes s ! k) | Some v \<Rightarrow> v)) \<and>
        (node_id (nodes s ! k) \<noteq> i \<longrightarrow> nodes (updateNode i p s) ! k = nodes s ! k)) \<and>
     (i \<notin> set (ids s) \<longrightarrow> nodes (updateNode i p s) = nodes s) \<and>
     selectedId (updateNode i p s) = selectedId s \<and>
     queryingAI (updateNode i p s) = queryingAI s \<and>
     alerts (updateNode i p s) = alerts s"
proof -
  assume p: "patch_id p = None"
  have len: "length (nodes (updateNode i p s)) = length (nodes s)"
    by (simp add: updateNode_def)
  have nth: "nodes (updateNode i p s) ! k =
      (if node_id (nodes s ! k) = i then spread (nodes s ! k) p else nodes s ! k)"
    if "k < length (nodes s)" for k
    using that by (simp add: updateNode_def)
  have each: "\<forall>k < length (nodes s).
        node_id (nodes (updateNode i p s) ! k) = node_id (nodes s ! k) \<and>
        (node_id (nodes s ! k) = i \<longrightarrow>
           node_content (nodes (updateNode i p s) ! k) =
             (case patch_content p of None \<Rightarrow> node_content (nodes s ! k) | Some c \<Rightarrow> c) \<and>
           node_x (nodes (updateNode i p s) ! k) =
             (case patch_x p of None \<Rightarrow> node_x (nodes s ! k) | Some v \<Rightarrow> v) \<and>
           node_y (nodes (updateNode i p s) ! k) =
             (case patch_y p of None \<Rightarrow> node_y (nodes s ! k) | Some v \<Rightarrow> v)) \<and>
        (node_id (nodes s ! k) \<noteq> i \<longrightarrow> nodes (updateNode i p s) ! k = nodes s ! k)"
    using p by (simp add: nth spread_def)
  have absent: "i \<notin> set (ids s) \<longrightarrow> nodes (updateNode i p s) = nodes s"
  proof
    assume "i \<notin> set (ids s)"
    then have "map (\<lambda>n. if node_id n = i then spread n p else n) (nodes s) = map (\<lambda>n. n) (nodes s)"
      by (intro map_cong) (auto simp add: ids_def)
    then show "nodes (updateNode i p s) = nodes s"
      by (simp add: updateNode_def)
  qed
  have rest: "selectedId (updateNode i p s) = selectedId s \<and>
     queryingAI (updateNode i p s) = queryingAI s \<and>
     alerts (updateNode i p s) = alerts s"
    by (simp add: updateNode_def)
  from len each absent rest show ?thesis by blast
qed

theorem updateNode_spec_witness:
  "patch_id \<lparr>patch_id = None, patch_content = Some [], patch_x = None, patch_y = Some 9\<rparr> = None \<and>
   nodes (updateNode ''1'' \<lparr>patch_id = None, patch_content = Some [], patch_x = None, patch_y = Some 9\<rparr>
      \<lparr>nodes = [\<lparr>node_id = ''2'', node_content = ''B'', node_x = 3, node_y = 4\<rparr>,
                \<lparr>node_id = ''1'', node_content = ''A'', node_x = 1, node_y = 2\<rparr>],
       selectedId = Some ''2'', queryingAI = False, alerts = []\<rparr>) ! 1
     = \<lparr>node_id = ''1'', node_content = [], node_x = 1, node_y = 9\<rparr> \<and>
   nodes (updateNode ''1'' \<lparr>patch_id = None, patch_content = Some [], patch_x = None, patch_y = Some 9\<rparr>
      \<lparr>nodes = [\<lparr>node_id = ''2'', node_content = ''B'', node_x = 3, node_y = 4\<rparr>,
                \<lparr>node_id = ''1'', node_content = ''A'', node_x = 1, node_y = 2\<rparr>],
       selectedId = Some ''2'', queryingAI = False, alerts = []\<rparr>) ! 0
     = \<lparr>node_id = ''2'', node_content = ''B'', node_x = 3, node_y = 4\<rparr> \<and>
   nodes (updateNode ''5'' \<lparr>patch_id = None, patch_content = Some [], patch_x = None, patch_y = Some 9\<rparr>
      \<lparr>nodes = [\<lparr>node_id = ''2'', node_content = ''B'', node_x = 3, node_y = 4\<rparr>,
                \<lparr>node_id = ''1'', node_content = ''A'', node_x = 1, node_y = 2\<rparr>],
       selectedId = Some ''2'', queryingAI = False, alerts = []\<rparr>)
     = [\<lparr>node_id = ''2'', node_content = ''B'', node_x = 3, node_y = 4\<rparr>,
        \<lparr>node_id = ''1'', node_content = ''A'', node_x = 1, node_y = 2\<rparr>]"
proof -
  let ?p = "\<lparr>patch_id = None, patch_content = Some [], patch_x = None, patch_y = Some 9\<rparr>"
  let ?s = "\<lparr>nodes = [\<lparr>node_id = ''2'', node_content = ''B'', node_x = 3, node_y = 4\<rparr>,
                \<lparr>node_id = ''1'', node_content = ''A'', node_x = 1, node_y = 2\<rparr>],
       selectedId = Some ''2'', queryingAI = False, alerts = []\<rparr>"
  have h: "patch_id ?p = None" by simp
  have l: "length (nodes ?s) = 2" by simp
  from updateNode_spec [OF h, of "''1''" ?s]
  have each: "\<forall>k < length (nodes ?s).
        node_id (nodes (updateNode ''1'' ?p ?s) ! k) = node_id (nodes ?s ! k) \<and>
        (node_id (nodes ?s ! k) = ''1'' \<longrightarrow>
           node_content (nodes (updateNode ''1'' ?p ?s) ! k) =
             (case patch_content ?p of None \<Rightarrow> node_content (nodes ?s ! k) | Some c \<Rightarrow> c) \<and>
           node_x (nodes (updateNode ''1'' ?p ?s) ! k) =
             (case patch_x ?p of None \<Rightarrow> node_x (nodes ?s ! k) | Some v \<Rightarrow> v) \<and>
           node_y (nodes (updateNode ''1'' ?p ?s) ! k) =
             (case patch_y ?p of None \<Rightarrow> node_y (nodes ?s ! k) | Some v \<Rightarrow> v)) \<and>
        (node_id (nodes ?s ! k) \<noteq> ''1'' \<longrightarrow> nodes (updateNode ''1'' ?p ?s) ! k = nodes ?s ! k)"
    by blast
  from each l have one: "nodes (updateNode ''1'' ?p ?s) ! 1
     = \<lparr>node_id = ''1'', node_content = [], node_x = 1, node_y = 9\<rparr>"
    by (intro node.equality) simp_all
  from each l have zero: "nodes (updateNode ''1'' ?p ?s) ! 0
     = \<lparr>node_id = ''2'', node_content = ''B'', node_x = 3, node_y = 4\<rparr>"
    by simp
  from updateNode_spec [OF h, of "''5''" ?s]
  have "nodes (updateNode ''5'' ?p ?s) = nodes ?s"
    by (simp add: ids_def)
  with h one zero show ?thesis by simp
qed

subsection \<open>\<open>importJSON\<close>\<close>

lemma importJSON_no_file: "importJSON JSON_parse None s = s"
  by (simp add: importJSON_def)

text \<open>
  What \<open>importJSON\<close> does with a text that parses to an array: the handler calls
  \<open>setNodes\<close> and nothing else, so the array becomes the collection as it is and the
  other fields of the state, the selection among them, keep their values.
\<close>

lemma importJSON_array:
  "JSON_parse t = Inr v \<Longrightarrow> Array_isArray v \<Longrightarrow>
     (\<exists>ns. v = JArr ns \<and> nodes (importJSON JSON_parse (Some t) s) = ns) \<and>
     selectedId (importJSON JSON_parse (Some t) s) = selectedId s \<and>
     queryingAI (importJSON JSON_parse (Some t) s) = queryingAI s \<and>
     alerts (importJSON JSON_parse (Some t) s) = alerts s"
  by (cases v) (simp_all add: importJSON_def Array_isArray_def)

text \<open>
  Claim C2: an import of an array replaces the collection and clears the selection.
  The handler does the first and misses the second. In the state below the node with
  the id \<open>1\<close> is selected and the file \<open>[]\<close> is imported: the collection becomes the
  imported array, the selection is still \<open>1\<close>, not \<open>null\<close>, and it names no node of
  the collection any more. \<open>removeNode\<close>, the other handler that takes the selected
  node away, does reset the selection in the same state. The parser of the example
  agrees with \<open>JSON.parse\<close> on the text \<open>[]\<close>.
\<close>

theorem importJSON_dangling_selection:
  "nodes (importJSON (\<lambda>t. if t = ''[]'' then Inr (JArr []) else Inl ''Unexpected token'') (Some ''[]'')
      \<lparr>nodes = [\<lparr>node_id = ''1'', node_content = ''A'', node_x = 1, node_y = 2\<rparr>],
       selectedId = Some ''1'', queryingAI = False, alerts = []\<rparr>) = [] \<and>
   selectedId (importJSON (\<lambda>t. if t = ''[]'' then Inr (JArr []) else Inl ''Unexpected token'') (Some ''[]'')
      \<lparr>nodes = [\<lparr>node_id = ''1'', node_content = ''A'', node_x = 1, node_y = 2\<rparr>],
       selectedId = Some ''1'', queryingAI = False, alerts = []\<rparr>) = Some ''1'' \<and>
   \<not> selection_ok
     (importJSON (\<lambda>t. if t = ''[]'' then Inr (JArr []) else Inl ''Unexpected token'') (Some ''[]'')
      \<lparr>nodes = [\<lparr>node_id = ''1'', node_content = ''A'', node_x = 1, node_y = 2\<rparr>],
       selectedId = Some ''1'', queryingAI = False, alerts = []\<rparr>) \<and>
   selectedId (removeNode ''1''
      \<lparr>nodes = [\<lparr>node_id = ''1'', node_content = ''A'', node_x = 1, node_y = 2\<rparr>],
       selectedId = Some ''1'', queryingAI = False, alerts = []\<rparr>) = None"
  by (simp add: importJSON_def removeNode_def selection_ok_def ids_def)

text \<open>
  Claim C6. When the text parses to a value that is not an array, \<open>importJSON\<close> alerts
  the invalid-format message; when \<open>JSON.parse\<close> throws, it alerts the import failure
  with the message of the error. In both cases collection, selection and flag are as
  before.
\<close>

theorem importJSON_errors:
  "(JSON_parse t = Inr v \<and> \<not> Array_isArray v \<longrightarrow>
      alerts (importJSON JSON_parse (Some t) s) =
        alerts s @ [''Invalid file format: expected an array of nodes''] \<and>
      nodes (importJSON JSON_parse (Some t) s) = nodes s \<and>
      selectedId (importJSON JSON_parse (Some t) s) = selectedId s \<and>
      queryingAI (importJSON JSON_parse (Some t) s) = queryingAI s) \<and>
   (JSON_parse t = Inl msg \<longrightarrow>
      alerts (importJSON JSON_parse (Some t) s) = alerts s @ [''Failed to import: '' @ msg] \<and>
      nodes (importJSON JSON_parse (Some t) s) = nodes s \<and>
      selectedId (importJSON JSON_parse (Some t) s) = selectedId s \<and>
      queryingAI (importJSON JSON_parse (Some t) s) = queryingAI s)"
  by (cases v) (simp_all add: importJSON_def Array_isArray_def alert_def)

theorem importJSON_errors_witness:
  "(if ''{}'' = ''{}'' then Inr (JObj []) else Inl ''Unexpected end of JSON input'')
      = (Inr (JObj []) :: string + json) \<and>
   \<not> Array_isArray (JObj []) \<and>
   importJSON (\<lambda>t. if t = ''{}'' then Inr (JObj []) else Inl ''Unexpected end of JSON input'') (Some ''{}'')
      \<lparr>nodes = [\<lparr>node_id = ''1'', node_content = ''A'', node_x = 1, node_y = 2\<rparr>],
       selectedId = Some ''1'', queryingAI = False, alerts = []\<rparr>
    = \<lparr>nodes = [\<lparr>node_id = ''1'', node_content = ''A'', node_x = 1, node_y = 2\<rparr>],
       selectedId = Some ''1'', queryingAI = False,
       alerts = [''Invalid file format: expected an array of nodes'']\<rparr> \<and>
   (if ''['' = ''{}'' then Inr (JObj []) else Inl ''Unexpected end of JSON input'')
      = (Inl ''Unexpected end of JSON input'' :: string + json) \<and>
   importJSON (\<lambda>t. if t = ''{}'' then Inr (JObj []) else Inl ''Unexpected end of JSON input'') (Some ''['')
      \<lparr>nodes = [\<lparr>node_id = ''1'', node_content = ''A'', node_x = 1, node_y = 2\<rparr>],
       selectedId = Some ''1'', queryingAI = False, alerts = []\<rparr>
    = \<lparr>nodes = [\<lparr>node_id = ''1'', node_content = ''A'', node_x = 1, node_y = 2\<rparr>],
       selectedId = Some ''1'', queryingAI = False,
       alerts = [''Failed to import: Unexpected end of JSON input'']\<rparr>"
proof -
  let ?parse = "\<lambda>t. if t = ''{}'' then Inr (JObj []) else (Inl ''Unexpected end of JSON input'' :: string + json)"
  let ?s = "\<lparr>nodes = [\<lparr>node_id = ''1'', node_content = ''A'', node_x = 1, node_y = 2\<rparr>],
       selectedId = Some ''1'', queryingAI = False, alerts = []\<rparr>"
  have na: "\<not> Array_isArray (JObj [])" by (simp add: Array_isArray_def)
  have p1: "?parse ''{}'' = Inr (JObj [])" by simp
  have p2: "?parse ''['' = Inl ''Unexpected end of JSON input''" by simp
  from importJSON_errors [of ?parse "''{}''" "JObj []" ?s] p1 na
  have a: "importJSON ?parse (Some ''{}'') ?s
    = \<lparr>nodes = [\<lparr>node_id = ''1'', node_content = ''A'', node_x = 1, node_y = 2\<rparr>],
       selectedId = Some ''1'', queryingAI = False,
       alerts = [''Invalid file format: expected an array of nodes'']\<rparr>"
    by (intro state.equality) simp_all
  from importJSON_errors [of ?parse "''[''" _ ?s "''Unexpected end of JSON input''"] p2
  have b: "importJSON ?parse (Some ''['') ?s
    = \<lparr>nodes = [\<lparr>node_id = ''1'', node_content = ''A'', node_x = 1, node_y = 2\<rparr>],
       selectedId = Some ''1'', queryingAI = False,
       alerts = [''Failed to import: Unexpected end of JSON input'']\<rparr>"
    by (intro state.equality) simp_all
  from a b na show ?thesis by simp
qed

subsection \<open>\<open>onAskAI\<close>\<close>

lemma onAskAI_settle_Fulfilled:
  "onAskAI_settle (Fulfilled r) now n s =
     s\<lparr>nodes := \<lparr>node_id = toString now, node_content = content_of_result r,
                   node_x = node_x n + 120, node_y = node_y n + 20\<rparr> # nodes s,
       selectedId := Some (toString now), queryingAI := False\<rparr>"
  by (simp add: onAskAI_settle_def)

lemma onAskAI_settle_Rejected:
  "onAskAI_settle (Rejected e) now n s =
     s\<lparr>alerts := alerts s @ [''AI request failed: '' @ message_or_self e], queryingAI := False\<rparr>"
  by (simp add: onAskAI_settle_def alert_def)

lemma onAskAI_no_node: "onAskAI expandWithAI now None s = s"
  by (simp add: onAskAI_def)

lemma onAskAI_by_id_found:
  "find (\<lambda>m. node_id m = i) (nodes s) = Some n \<Longrightarrow>
     onAskAI_by_id expandWithAI now i s = onAskAI expandWithAI now (Some n) s"
  by (simp add: onAskAI_by_id_def)

lemma onAskAI_by_id_missing:
  "i \<notin> set (ids s) \<Longrightarrow> onAskAI_by_id expandWithAI now i s = s"
proof -
  assume "i \<notin> set (ids s)"
  then have "find (\<lambda>m. node_id m = i) (nodes s) = None"
    by (auto simp add: find_None_iff ids_def)
  then show ?thesis
    by (simp add: onAskAI_by_id_def onAskAI_no_node)
qed

text \<open>
  Claim C8. When the promise for the content of the node \<open>n\<close> is fulfilled with \<open>r\<close>,
  \<open>onAskAI\<close> puts one new node in front of the collection and selects it. The new node
  lies at \<open>(x + 120, y + 20)\<close> for \<open>n\<close> at \<open>(x, y)\<close>; its content is \<open>r\<close> when
  \<open>r\<close> is a non-empty string and the placeholder \<open>(AI had no suggestion)\<close> when \<open>r\<close>
  is \<open>null\<close>, \<open>undefined\<close> or empty. The flag is down again and nothing is alerted.
\<close>

theorem onAskAI_success:
  "expandWithAI (node_content n) = Fulfilled r \<Longrightarrow>
     (\<exists>m. nodes (onAskAI expandWithAI now (Some n) s) = m # nodes s \<and>
          node_id m = toString now \<and>
          node_x m = node_x n + 120 \<and> node_y m = node_y n + 20 \<and>
          (\<forall>t. r = Some t \<and> t \<noteq> [] \<longrightarrow> node_content m = t) \<and>
          (r = None \<or> r = Some [] \<longrightarrow> node_content m = ''(AI had no suggestion)'') \<and>
          selectedId (onAskAI expandWithAI now (Some n) s) = Some (node_id m)) \<and>
     queryingAI (onAskAI expandWithAI now (Some n) s) = False \<and>
     alerts (onAskAI expandWithAI now (Some n) s) = alerts s"
proof -
  assume f: "expandWithAI (node_content n) = Fulfilled r"
  define m where "m = \<lparr>node_id = toString now, node_content = content_of_result r,
                   node_x = node_x n + 120, node_y = node_y n + 20\<rparr>"
  from f have st: "onAskAI expandWithAI now (Some n) s =
      s\<lparr>nodes := m # nodes s, selectedId := Some (node_id m), queryingAI := False\<rparr>"
    by (simp add: onAskAI_def onAskAI_begin_def onAskAI_settle_Fulfilled m_def)
  have c1: "\<forall>t. r = Some t \<and> t \<noteq> [] \<longrightarrow> node_content m = t"
    by (simp add: m_def content_of_result_def)
  have c2: "r = None \<or> r = Some [] \<longrightarrow> node_content m = ''(AI had no suggestion)''"
    by (auto simp add: m_def content_of_result_def)
  have pos: "node_id m = toString now \<and> node_x m = node_x n + 120 \<and> node_y m = node_y n + 20"
    by (simp add: m_def)
  have "nodes (onAskAI expandWithAI now (Some n) s) = m # nodes s \<and>
        selectedId (onAskAI expandWithAI now (Some n) s) = Some (node_id m) \<and>
        queryingAI (onAskAI expandWithAI now (Some n) s) = False \<and>
        alerts (onAskAI expandWithAI now (Some n) s) = alerts s"
    by (simp add: st)
  with c1 c2 pos show ?thesis by blast
qed

theorem onAskAI_success_witness:
  "(\<lambda>t. if t = ''Cats'' then Fulfilled (Some ''Cats as pets'') else Fulfilled None)
       (node_content \<lparr>node_id = ''5'', node_content = ''Cats'', node_x = 10, node_y = 10\<rparr>)
     = Fulfilled (Some ''Cats as pets'') \<and>
   nodes (onAskAI (\<lambda>t. if t = ''Cats'' then Fulfilled (Some ''Cats as pets'') else Fulfilled None)
       1700000000000 (Some \<lparr>node_id = ''5'', node_content = ''Cats'', node_x = 10, node_y = 10\<rparr>)
       \<lparr>nodes = [\<lparr>node_id = ''5'', node_content = ''Cats'', node_x = 10, node_y = 10\<rparr>],
        selectedId = None, queryingAI = False, alerts = []\<rparr>)
     = [\<lparr>node_id = toString 1700000000000, node_content = ''Cats as pets'', node_x = 130, node_y = 30\<rparr>,
        \<lparr>node_id = ''5'', node_content = ''Cats'', node_x = 10, node_y = 10\<rparr>] \<and>
   selectedId (onAskAI (\<lambda>t. if t = ''Cats'' then Fulfilled (Some ''Cats as pets'') else Fulfilled None)
       1700000000000 (Some \<lparr>node_id = ''5'', node_content = ''Cats'', node_x = 10, node_y = 10\<rparr>)
       \<lparr>nodes = [\<lparr>node_id = ''5'', node_content = ''Cats'', node_x = 10, node_y = 10\<rparr>],
        selectedId = None, queryingAI = False, alerts = []\<rparr>)
     = Some (toString 1700000000000)"
proof -
  let ?e = "\<lambda>t. if t = ''Cats'' then Fulfilled (Some ''Cats as pets'') else Fulfilled None"
  let ?n = "\<lparr>node_id = ''5'', node_content = ''Cats'', node_x = 10, node_y = 10\<rparr>"
  let ?s = "\<lparr>nodes = [?n], selectedId = None, queryingAI = False, alerts = []\<rparr>"
  have h: "?e (node_content ?n) = Fulfilled (Some ''Cats as pets'')" by simp
  from onAskAI_success [of ?e ?n "Some ''Cats as pets''" 1700000000000 ?s, OF h]
  obtain m where m: "nodes (onAskAI ?e 1700000000000 (Some ?n) ?s) = m # nodes ?s"
    and i: "node_id m = toString 1700000000000"
    and x: "node_x m = node_x ?n + 120" and y: "node_y m = node_y ?n + 20"
    and c: "\<forall>t. Some ''Cats as pets'' = Some t \<and> t \<noteq> [] \<longrightarrow> node_content m = t"
    and sel: "selectedId (onAskAI ?e 1700000000000 (Some ?n) ?s) = Some (node_id m)"
    by blast
  from c have c': "node_content m = ''Cats as pets''" by simp
  from i c' x y have "m = \<lparr>node_id = toString 1700000000000, node_content = ''Cats as pets'',
      node_x = 130, node_y = 30\<rparr>"
    by (intro node.equality) simp_all
  with m sel h show ?thesis by simp
qed

text \<open>
  Claim C9. When the promise is rejected with \<open>e\<close>, \<open>onAskAI\<close> leaves collection and
  selection as they were, alerts the failure with the message of \<open>e\<close>, and the flag
  is down again.
\<close>

theorem onAskAI_failure:
  "expandWithAI (node_content n) = Rejected e \<Longrightarrow>
     nodes (onAskAI expandWithAI now (Some n) s) = nodes s \<and>
     selectedId (onAskAI expandWithAI now (Some n) s) = selectedId s \<and>
     queryingAI (onAskAI expandWithAI now (Some n) s) = False \<and>
     alerts (onAskAI expandWithAI now (Some n) s) =
       alerts s @ [''AI request failed: '' @ message_or_self e]"
  by (simp add: onAskAI_def onAskAI_begin_def onAskAI_settle_Rejected)

theorem onAskAI_failure_witness:
  "(\<lambda>t. Rejected (Thrown (Some ''Network Error'') ''Error: Network Error''))
       (node_content \<lparr>node_id = ''5'', node_content = ''Cats'', node_x = 10, node_y = 10\<rparr>)
     = Rejected (Thrown (Some ''Network Error'') ''Error: Network Error'') \<and>
   onAskAI (\<lambda>t. Rejected (Thrown (Some ''Network Error'') ''Error: Network Error''))
       1700000000000 (Some \<lparr>node_id = ''5'', node_content = ''Cats'', node_x = 10, node_y = 10\<rparr>)
       \<lparr>nodes = [\<lparr>node_id = ''5'', node_content = ''Cats'', node_x = 10, node_y = 10\<rparr>],
        selectedId = Some ''5'', queryingAI = False, alerts = []\<rparr>
     = \<lparr>nodes = [\<lparr>node_id = ''5'', node_content = ''Cats'', node_x = 10, node_y = 10\<rparr>],
        selectedId = Some ''5'', queryingAI = False,
        alerts = [''AI request failed: Network Error'']\<rparr>"
proof -
  let ?e = "\<lambda>t :: string. Rejected (Thrown (Some ''Network Error'') ''Error: Network Error'')"
  let ?n = "\<lparr>node_id = ''5'', node_content = ''Cats'', node_x = 10, node_y = 10\<rparr>"
  let ?s = "\<lparr>nodes = [?n], selectedId = Some ''5'', queryingAI = False, alerts = []\<rparr>"
  have h: "?e (node_content ?n) = Rejected (Thrown (Some ''Network Error'') ''Error: Network Error'')"
    by simp
  from onAskAI_failure [of ?e ?n _ 1700000000000 ?s, OF h]
  have "onAskAI ?e 1700000000000 (Some ?n) ?s
     = \<lparr>nodes = [?n], selectedId = Some ''5'', queryingAI = False,
        alerts = [''AI request failed: Network Error'']\<rparr>"
    by (intro state.equality) (simp_all add: message_or_self_def)
  then show ?thesis by simp
qed

end
